theory Spec2Isabelle
  imports Main "HOL-Library.AList"
begin

section \<open>Data model of the caching DNS server\<close>

text \<open>
  The server of \<^verbatim>\<open>caching_dns.py\<close> keeps a dictionary
  \<^verbatim>\<open>dns_cache[domain_name][q_type] = [r_data, time_end, ttl]\<close>.
  Python dictionaries keep insertion order and have unique keys, so a dictionary is an
  association list; the three-element list stored per key is a record whose fields
  \<open>e_r_data\<close>, \<open>e_time_end\<close> and \<open>e_ttl\<close> are its positions 0, 1 and 2.

  Datagrams are lists of bytes (numbers below 256).  A \<^verbatim>\<open>datetime\<close> is a
  number of microseconds since the epoch, the resolution of Python's
  \<^verbatim>\<open>datetime\<close>; a \<^verbatim>\<open>timedelta\<close> is a number of microseconds too.
\<close>

type_synonym bytes = "nat list"
type_synonym address = "string \<times> nat"
type_synonym datetime = int
type_synonym rdata = bytes

record entry =
  e_r_data :: "rdata list"
  e_time_end :: datetime
  e_ttl :: int

type_synonym ('k, 'v) dict = "('k \<times> 'v) list"
type_synonym cache = "(string, (string, entry) dict) dict"

datatype error =
    DNSError | IndexError | KeyError | FileNotFoundError | EOFError | UnpicklingError
  | ConnectionResetError | TimeoutError | RuntimeError

subsection \<open>The parts of dnslib the server uses\<close>

text \<open>
  \<^verbatim>\<open>DNSRecord\<close> has a header, a list of questions and a list of resource records
  (\<^verbatim>\<open>rr\<close>).  \<^verbatim>\<open>DNSRecord.parse\<close> is not part of the repository: every
  function below takes it as the parameter \<open>parse\<close>, where \<open>None\<close> stands for the
  \<^verbatim>\<open>DNSError\<close> it raises on bytes that are not a DNS message.
\<close>

record dns_header =
  hid :: nat
  bitmap :: nat
  n_q :: nat
  n_a :: nat

record dns_question =
  qname :: string
  qtype :: nat

record RR =
  rname :: string
  rtype :: nat
  rdata :: rdata
  rr_ttl :: int

record dns_record =
  header :: dns_header
  questions :: "dns_question list"
  rr :: "RR list"

type_synonym parser = "bytes \<Rightarrow> dns_record option"

text \<open>
  \<^verbatim>\<open>QTYPE[n]\<close> names a query type (\<^verbatim>\<open>QTYPE[1] = "A"\<close>); \<open>None\<close> stands for the
  error it raises on a number it does not know.  \<^verbatim>\<open>pack\<close> encodes a record.
\<close>

type_synonym qtype_table = "nat \<Rightarrow> string option"
type_synonym packer = "dns_record \<Rightarrow> bytes"

text \<open>
  The property \<^verbatim>\<open>DNSRecord.q\<close> is the first question, or a default question (root
  name, type 1) when the message has none.
\<close>

definition get_q :: "dns_record \<Rightarrow> dns_question" where
  "get_q r = (case questions r of [] \<Rightarrow> \<lparr>qname = ''.'', qtype = 1\<rparr> | x # _ \<Rightarrow> x)"

text \<open>
  \<^verbatim>\<open>add_question\<close> and \<^verbatim>\<open>add_answer\<close> append and then refresh the counters of
  the header (\<^verbatim>\<open>set_header_qa\<close>; the fields \<^verbatim>\<open>q\<close> and \<^verbatim>\<open>a\<close> of the header
  are \<open>n_q\<close> and \<open>n_a\<close> here).
\<close>

definition set_header_qa :: "dns_record \<Rightarrow> dns_record" where
  "set_header_qa r = r\<lparr>header := (header r)\<lparr>n_q := length (questions r), n_a := length (rr r)\<rparr>\<rparr>"

definition add_question :: "dns_question \<Rightarrow> dns_record \<Rightarrow> dns_record" where
  "add_question x r = set_header_qa (r\<lparr>questions := questions r @ [x]\<rparr>)"

definition add_answer :: "RR \<Rightarrow> dns_record \<Rightarrow> dns_record" where
  "add_answer x r = set_header_qa (r\<lparr>rr := rr r @ [x]\<rparr>)"

subsection \<open>Dictionary operations\<close>

text \<open>
  \<^verbatim>\<open>d.setdefault(k, v)\<close> stores \<open>v\<close> only when \<open>k\<close> is absent (a new key goes
  to the end); \<^verbatim>\<open>d[k] = v\<close> is \<^const>\<open>AList.update\<close>; \<^verbatim>\<open>del d[k]\<close> raises
  \<^verbatim>\<open>KeyError\<close> on an absent key.
\<close>

definition setdefault :: "'k \<Rightarrow> 'v \<Rightarrow> ('k, 'v) dict \<Rightarrow> ('k, 'v) dict" where
  "setdefault k v d = (case map_of d k of None \<Rightarrow> d @ [(k, v)] | Some _ \<Rightarrow> d)"

definition delitem :: "'k \<Rightarrow> ('k, 'v) dict \<Rightarrow> error + ('k, 'v) dict" where
  "delitem k d = (case map_of d k of None \<Rightarrow> Inl KeyError | Some _ \<Rightarrow> Inr (AList.delete k d))"

text \<open>\<^verbatim>\<open>dns_cache[domain_name][q_type]\<close>, absent when either key is.\<close>

definition lookup :: "cache \<Rightarrow> string \<Rightarrow> string \<Rightarrow> entry option" where
  "lookup c domain_name q_type =
     (case map_of c domain_name of None \<Rightarrow> None | Some inner \<Rightarrow> map_of inner q_type)"

section \<open>Sockets\<close>

text \<open>
  What the network delivers to one \<^verbatim>\<open>recvfrom\<close>: a datagram, a reset, or nothing
  at all.  A socket on which \<^verbatim>\<open>settimeout\<close> was never called has no timeout and
  its \<^verbatim>\<open>recvfrom\<close> blocks until something arrives; with a timeout it raises
  \<^verbatim>\<open>TimeoutError\<close>.
\<close>

datatype delivery = Datagram bytes address | Reset | Silence

datatype recv_result = Received bytes address | RecvRaises error | BlocksForever

record socket =
  timeout :: "nat option"

definition new_socket :: socket where
  "new_socket = \<lparr>timeout = None\<rparr>"

definition settimeout :: "nat \<Rightarrow> socket \<Rightarrow> socket" where
  "settimeout t s = s\<lparr>timeout := Some t\<rparr>"

definition recvfrom :: "socket \<Rightarrow> delivery \<Rightarrow> recv_result" where
  "recvfrom s ev =
     (case ev of
        Datagram d a \<Rightarrow> Received d a
      | Reset \<Rightarrow> RecvRaises ConnectionResetError
      | Silence \<Rightarrow> (case timeout s of None \<Rightarrow> BlocksForever | Some _ \<Rightarrow> RecvRaises TimeoutError))"

section \<open>The server state\<close>

datatype log_line =
    IncorrectRequest
  | TakenFromCache string string
  | RemovingExpired string string
  | SocketErrorLine
  | StartLine
  | ExitHintLine
  | ShutdownLine

record server =
  dns_cache :: cache
  running :: bool
  to_upstream :: "(bytes \<times> address) list"
  to_client :: "(bytes \<times> address) list"
  stdout :: "log_line list"

text \<open>
  A call either returns, raises, or never returns; each carries the state it leaves.
\<close>

datatype 'a outcome =
    Returns (outcome_state: 'a)
  | Raises error (outcome_state: 'a)
  | Hangs (outcome_state: 'a)

section \<open>Decoding the upstream answer\<close>

definition get_response_info :: "parser \<Rightarrow> bytes \<Rightarrow> error + (int \<times> rdata list)" where
  "get_response_info parse data =
     (case parse data of
        None \<Rightarrow> Inl DNSError
      | Some response \<Rightarrow>
          (let rdata_list = map rdata (rr response)
           in case rr response of
                [] \<Rightarrow> Inl IndexError
              | first # _ \<Rightarrow> Inr (rr_ttl first, rdata_list)))"

section \<open>Forwarding a query\<close>

definition timedelta_milliseconds :: "int \<Rightarrow> int" where
  "timedelta_milliseconds n = n * 1000"

definition upstream :: address where
  "upstream = (''8.8.8.8'', 53)"

text \<open>
  \<open>now\<close> is what \<^verbatim>\<open>datetime.datetime.now()\<close> returns in the call, \<open>ev\<close> what
  the network delivers to \<^verbatim>\<open>sock_send.recvfrom\<close>.  Sending a datagram is taken
  to succeed.
\<close>

definition store_answer :: "string \<Rightarrow> string \<Rightarrow> entry \<Rightarrow> cache \<Rightarrow> cache" where
  "store_answer domain_name q_type e c =
     (let c1 = setdefault domain_name [] c
      in case map_of c1 domain_name of
           None \<Rightarrow> c1
         | Some inner \<Rightarrow> AList.update domain_name (setdefault q_type e inner) c1)"

definition make_request ::
  "parser \<Rightarrow> datetime \<Rightarrow> delivery \<Rightarrow> server \<Rightarrow> socket \<Rightarrow> bytes \<Rightarrow> string \<Rightarrow> string \<Rightarrow> address
     \<Rightarrow> server outcome" where
  "make_request parse now ev s sock_send data_request domain_name q_type address_request =
     (let s1 = s\<lparr>to_upstream := to_upstream s @ [(data_request, upstream)]\<rparr>
      in case recvfrom sock_send ev of
           BlocksForever \<Rightarrow> Hangs s1
         | RecvRaises e \<Rightarrow> Raises e s1
         | Received data_response address_response \<Rightarrow>
             if data_response \<noteq> [] then
               (case get_response_info parse data_response of
                  Inl e \<Rightarrow> Returns (s1\<lparr>stdout := stdout s1 @ [IncorrectRequest]\<rparr>)
                | Inr (ttl, r_data) \<Rightarrow>
                    (let current_time = now;
                         time_end = current_time + timedelta_milliseconds ttl
                     in Returns (s1\<lparr>dns_cache :=
                                       store_answer domain_name q_type
                                         \<lparr>e_r_data = r_data, e_time_end = time_end, e_ttl = ttl\<rparr>
                                         (dns_cache s1),
                                     to_client :=
                                       to_client s1 @ [(data_response, address_request)]\<rparr>)))
             else Returns s1)"


section \<open>Decoding a query\<close>

definition get_request_info :: "parser \<Rightarrow> qtype_table \<Rightarrow> bytes \<Rightarrow> error + (string \<times> string)" where
  "get_request_info parse QTYPE data =
     (case parse data of
        None \<Rightarrow> Inl DNSError
      | Some request \<Rightarrow>
          (case QTYPE (qtype (get_q request)) of
             None \<Rightarrow> Inl DNSError
           | Some name \<Rightarrow> Inr (qname (get_q request), name)))"

section \<open>Answering from the cache\<close>

text \<open>The loop of \<^verbatim>\<open>prepare_dns_response\<close> over the cached payloads.\<close>

fun add_answers :: "dns_question \<Rightarrow> int \<Rightarrow> rdata list \<Rightarrow> dns_record \<Rightarrow> dns_record" where
  "add_answers question t [] response = response"
| "add_answers question t (r_data # r_data_list) response =
     add_answers question t r_data_list
       (add_answer \<lparr>rname = qname question, rtype = qtype question, rdata = r_data, rr_ttl = t\<rparr>
          response)"

text \<open>
  The record \<^verbatim>\<open>prepare_dns_response\<close> builds, before \<^verbatim>\<open>pack\<close>.  The new record
  takes the header of the request.
\<close>

definition prepare_dns_record :: "parser \<Rightarrow> cache \<Rightarrow> bytes \<Rightarrow> string \<Rightarrow> string \<Rightarrow> error + dns_record" where
  "prepare_dns_record parse c data_request domain_name q_type =
     (case parse data_request of
        None \<Rightarrow> Inl DNSError
      | Some request \<Rightarrow>
          (case questions request of
             [] \<Rightarrow> Inl IndexError
           | question # _ \<Rightarrow>
               (case lookup c domain_name q_type of
                  None \<Rightarrow> Inl KeyError
                | Some e \<Rightarrow>
                    Inr (add_answers question (e_ttl e) (e_r_data e)
                           (add_question question
                              \<lparr>header = header request, questions = [], rr = []\<rparr>)))))"

definition prepare_dns_response ::
  "parser \<Rightarrow> packer \<Rightarrow> cache \<Rightarrow> bytes \<Rightarrow> string \<Rightarrow> string \<Rightarrow> error + bytes" where
  "prepare_dns_response parse pack c data_request domain_name q_type =
     (case prepare_dns_record parse c data_request domain_name q_type of
        Inl e \<Rightarrow> Inl e
      | Inr response \<Rightarrow> Inr (pack response))"

section \<open>The listener\<close>

text \<open>
  One pass through the body of the \<^verbatim>\<open>while self.running\<close> loop of
  \<^verbatim>\<open>working_dns\<close>.  What the surroundings supply to it: the datagram (or not) on
  the listening socket, the reply (or not) of the upstream, and the two readings of
  the clock, one for the freshness test and one inside \<^verbatim>\<open>make_request\<close>.
\<close>

record arrival =
  from_client :: delivery
  from_upstream :: delivery
  now_lookup :: datetime
  now_store :: datetime

datatype 'a iteration =
    Next (iteration_state: 'a)
  | Break (iteration_state: 'a)
  | Escapes error (iteration_state: 'a)
  | Stuck (iteration_state: 'a)

definition of_outcome :: "'a outcome \<Rightarrow> 'a iteration" where
  "of_outcome r = (case r of Returns s \<Rightarrow> Next s | Raises e s \<Rightarrow> Escapes e s | Hangs s \<Rightarrow> Stuck s)"

definition iteration ::
  "parser \<Rightarrow> qtype_table \<Rightarrow> packer \<Rightarrow> socket \<Rightarrow> socket \<Rightarrow> arrival \<Rightarrow> server \<Rightarrow> server iteration" where
  "iteration parse QTYPE pack sock_rec sock_send i s =
     (case recvfrom (settimeout 5 sock_rec) (from_client i) of
        BlocksForever \<Rightarrow> Stuck s
      | RecvRaises e \<Rightarrow>
          if e = ConnectionResetError \<or> e = TimeoutError
          then (if \<not> running s then Break s else Next s)
          else Escapes e s
      | Received data_request address_request \<Rightarrow>
          if data_request \<noteq> [] then
            (case get_request_info parse QTYPE data_request of
               Inl e \<Rightarrow> Escapes e s
             | Inr (domain_name, q_type) \<Rightarrow>
                 (case lookup (dns_cache s) domain_name q_type of
                    Some e \<Rightarrow>
                      if e_time_end e > now_lookup i then
                        (let s1 = s\<lparr>stdout := stdout s @ [TakenFromCache domain_name q_type]\<rparr>
                         in case prepare_dns_response parse pack (dns_cache s1)
                                   data_request domain_name q_type of
                              Inl err \<Rightarrow> Escapes err s1
                            | Inr response \<Rightarrow>
                                Next (s1\<lparr>to_client :=
                                            to_client s1 @ [(response, address_request)]\<rparr>))
                      else of_outcome (make_request parse (now_store i) (from_upstream i) s
                                         sock_send data_request domain_name q_type address_request)
                  | None \<Rightarrow>
                      of_outcome (make_request parse (now_store i) (from_upstream i) s
                                    sock_send data_request domain_name q_type address_request)))
          else Next s)"

text \<open>
  \<^verbatim>\<open>socket.error\<close> is \<^verbatim>\<open>OSError\<close>: the handlers around the loop catch these
  and no other exception.
\<close>

definition is_socket_error :: "error \<Rightarrow> bool" where
  "is_socket_error e = (e = ConnectionResetError \<or> e = TimeoutError \<or> e = FileNotFoundError)"

text \<open>
  How a run of the listener over the arrivals ends: the loop is left (\<open>Exited\<close>), an
  exception leaves \<^verbatim>\<open>working_dns\<close> (\<open>Crashed\<close>), a call never returns
  (\<open>Blocked\<close>), or the arrivals are used up with the loop still going (\<open>Serving\<close>).
\<close>

datatype 'a run = Exited 'a | Crashed error 'a | Blocked 'a | Serving 'a

fun serve ::
  "parser \<Rightarrow> qtype_table \<Rightarrow> packer \<Rightarrow> socket \<Rightarrow> socket \<Rightarrow> arrival list \<Rightarrow> server \<Rightarrow> server run" where
  "serve parse QTYPE pack sock_rec sock_send [] s = (if running s then Serving s else Exited s)"
| "serve parse QTYPE pack sock_rec sock_send (i # arrivals) s =
     (if running s then
        (case iteration parse QTYPE pack sock_rec sock_send i s of
           Next s' \<Rightarrow> serve parse QTYPE pack sock_rec sock_send arrivals s'
         | Break s' \<Rightarrow> Exited s'
         | Escapes e s' \<Rightarrow>
             if is_socket_error e then Exited (s'\<lparr>stdout := stdout s' @ [SocketErrorLine]\<rparr>)
             else Crashed e s'
         | Stuck s' \<Rightarrow> Blocked s')
      else Exited s)"

text \<open>\<open>bound\<close> says whether \<^verbatim>\<open>sock_rec.bind\<close> succeeds.\<close>

definition working_dns ::
  "parser \<Rightarrow> qtype_table \<Rightarrow> packer \<Rightarrow> bool \<Rightarrow> arrival list \<Rightarrow> server \<Rightarrow> server run" where
  "working_dns parse QTYPE pack bound arrivals s =
     (if bound then serve parse QTYPE pack new_socket new_socket arrivals s
      else Exited (s\<lparr>stdout := stdout s @ [SocketErrorLine]\<rparr>))"

section \<open>The snapshot file\<close>

text \<open>
  The file system maps a path to the bytes of the file, when there is one.
  \<^verbatim>\<open>pickle.loads\<close> is a parameter; \<open>Inl e\<close> is the exception it raises.  \<^verbatim>\<open>open\<close> stands before the \<^verbatim>\<open>try\<close>, and the only handler
  is for \<^verbatim>\<open>EOFError\<close>.
\<close>

type_synonym filesystem = "string \<Rightarrow> bytes option"
type_synonym unpickler = "bytes \<Rightarrow> error + cache"

definition read_cache :: "unpickler \<Rightarrow> filesystem \<Rightarrow> string \<Rightarrow> error + cache" where
  "read_cache loads fs path_file =
     (case fs path_file of
        None \<Rightarrow> Inl FileNotFoundError
      | Some content \<Rightarrow>
          (case loads content of
             Inr c \<Rightarrow> Inr c
           | Inl e \<Rightarrow> if e = EOFError then Inr [] else Inl e))"

text \<open>
  \<^verbatim>\<open>CachingDNS.__init__\<close>, up to the call of \<^verbatim>\<open>start_dns\<close>: an exception of
  \<^verbatim>\<open>read_cache\<close> ends the start.
\<close>

definition init :: "unpickler \<Rightarrow> filesystem \<Rightarrow> error + server" where
  "init loads fs =
     (case read_cache loads fs ''dns_cache.pickle'' of
        Inl e \<Rightarrow> Inl e
      | Inr c \<Rightarrow> Inr \<lparr>dns_cache = c, running = True, to_upstream = [], to_client = [],
                       stdout = []\<rparr>)"

section \<open>The sweeper\<close>

text \<open>
  One pass of \<^verbatim>\<open>search_expired_records\<close> calls \<^verbatim>\<open>datetime.datetime.now()\<close> once
  for every entry it looks at: \<open>clock n\<close> is the reading of call number \<open>n\<close> of the
  pass.  The two nested loops collect \<^verbatim>\<open>records_to_remove\<close>; the counter of the
  readings is threaded through them.
\<close>

type_synonym clock = "nat \<Rightarrow> datetime"

fun scan_types ::
  "clock \<Rightarrow> nat \<Rightarrow> string \<Rightarrow> (string, entry) dict \<Rightarrow> (string \<times> string) list
     \<Rightarrow> nat \<times> (string \<times> string) list" where
  "scan_types clock n domain_name [] records_to_remove = (n, records_to_remove)"
| "scan_types clock n domain_name ((q_type, e) # rest) records_to_remove =
     scan_types clock (Suc n) domain_name rest
       (if e_time_end e \<le> clock n then records_to_remove @ [(domain_name, q_type)]
        else records_to_remove)"

fun scan_domains ::
  "clock \<Rightarrow> nat \<Rightarrow> cache \<Rightarrow> (string \<times> string) list \<Rightarrow> nat \<times> (string \<times> string) list" where
  "scan_domains clock n [] records_to_remove = (n, records_to_remove)"
| "scan_domains clock n ((domain_name, inner) # rest) records_to_remove =
     (case scan_types clock n domain_name inner records_to_remove of
        (n', records_to_remove') \<Rightarrow> scan_domains clock n' rest records_to_remove')"

text \<open>\<^verbatim>\<open>del self.dns_cache[domain_name][q_type]\<close>: either key may be missing.\<close>

definition del_record :: "string \<Rightarrow> string \<Rightarrow> cache \<Rightarrow> error + cache" where
  "del_record domain_name q_type c =
     (case map_of c domain_name of
        None \<Rightarrow> Inl KeyError
      | Some inner \<Rightarrow>
          (case delitem q_type inner of
             Inl e \<Rightarrow> Inl e
           | Inr inner' \<Rightarrow> Inr (AList.update domain_name inner' c)))"

fun remove_records :: "(string \<times> string) list \<Rightarrow> server \<Rightarrow> server outcome" where
  "remove_records [] s = Returns s"
| "remove_records ((domain_name, q_type) # rest) s =
     (let s1 = s\<lparr>stdout := stdout s @ [RemovingExpired domain_name q_type]\<rparr>
      in case del_record domain_name q_type (dns_cache s1) of
           Inl e \<Rightarrow> Raises e s1
         | Inr c \<Rightarrow> remove_records rest (s1\<lparr>dns_cache := c\<rparr>))"

definition sweep_pass :: "clock \<Rightarrow> server \<Rightarrow> server outcome" where
  "sweep_pass clock s = remove_records (snd (scan_domains clock 0 (dns_cache s) [])) s"

text \<open>
  The entries of the cache in the order the two loops meet them; a pass takes one
  reading of the clock for each.
\<close>

definition items :: "cache \<Rightarrow> (string \<times> string \<times> entry) list" where
  "items c = concat (map (\<lambda>(d, inner). map (\<lambda>(q, e). (d, q, e)) inner) c)"

text \<open>The loop \<^verbatim>\<open>while self.running\<close>, with one clock for each pass.\<close>

fun search_expired_records :: "clock list \<Rightarrow> server \<Rightarrow> server run" where
  "search_expired_records [] s = (if running s then Serving s else Exited s)"
| "search_expired_records (clock # clocks) s =
     (if running s then
        (case sweep_pass clock s of
           Returns s' \<Rightarrow> search_expired_records clocks s'
         | Raises e s' \<Rightarrow> Crashed e s'
         | Hangs s' \<Rightarrow> Blocked s')
      else Exited s)"

text \<open>A dictionary has each key once, at both levels of the cache.\<close>

definition wf_cache :: "cache \<Rightarrow> bool" where
  "wf_cache c = (distinct (map fst c) \<and> list_all (\<lambda>(d, inner). distinct (map fst inner)) c)"

text \<open>A clock that shows \<open>t0\<close> first and \<open>step\<close> microseconds more at each reading.\<close>

definition ticking :: "datetime \<Rightarrow> int \<Rightarrow> clock" where
  "ticking t0 step n = t0 + step * int n"

section \<open>The process: the main thread and the two loops\<close>

text \<open>
  \<^verbatim>\<open>start_dns\<close> starts a thread for \<^verbatim>\<open>search_expired_records\<close> and one for
  \<^verbatim>\<open>working_dns\<close>, and then reads lines in the main thread.  The three run
  interleaved on the one server state; a schedule says which of them moves next.

  A step of the main thread is one statement of its loop (lines 150 to 155 of the
  source).  A step of the sweeper is one turn of one of its loops, so that the listener
  can come between two turns.  A step of the listener is the test of
  \<^verbatim>\<open>self.running\<close> and, when it holds, one pass through the body; the listening
  socket is taken to be bound.
\<close>

datatype main_pc = AtInput | AtSetRunning | AtSave | AtPrint | AtExit | Finished

text \<open>
  Where the sweeper stands.  A \<^verbatim>\<open>for\<close> loop over a dictionary holds the position
  it has reached and the size the dictionary had when the loop began:
  \<^item> \<open>AtWhile\<close>: at the test of \<^verbatim>\<open>while self.running\<close>;
  \<^item> \<open>OuterNext i n rs\<close>: about to take key number \<open>i\<close> of \<^verbatim>\<open>self.dns_cache\<close>,
    which had \<open>n\<close> keys when the loop began, with \<open>rs\<close> collected so far;
  \<^item> \<open>InnerNext i n d j m rs\<close>: inside the loop over the types of the domain \<open>d\<close>,
    about to take key number \<open>j\<close> of a dictionary that had \<open>m\<close> keys;
  \<^item> \<open>Removing rs\<close>: in the second loop, with \<open>rs\<close> still to remove;
  \<^item> \<open>SweeperLeft\<close>: the loop was left because the flag was down;
  \<^item> \<open>SweeperDied e\<close>: the exception \<open>e\<close> ended the thread.
\<close>

datatype sweeper_pc =
    AtWhile
  | OuterNext nat nat "(string \<times> string) list"
  | InnerNext nat nat string nat nat "(string \<times> string) list"
  | Removing "(string \<times> string) list"
  | SweeperLeft
  | SweeperDied error

text \<open>
  The listener is in its loop, has left it because the flag was down, was ended by an
  exception (for a \<^verbatim>\<open>socket.error\<close> after the handler has printed it), or waits
  in a \<^verbatim>\<open>recvfrom\<close> that never returns.
\<close>

datatype thread = Looping | Left | Died error | Waiting

text \<open>What the main thread does at the shutdown, in the order it happens.\<close>

datatype event = FlagCleared | SnapshotSaved | ExitCalled

text \<open>
  \<open>snapshot\<close> is the cache that \<^verbatim>\<open>save_dns_cache\<close> has pickled and written to
  \<^verbatim>\<open>dns_cache.pickle\<close> in this run, if it has been called; the bytes of the pickle
  are not modelled.
\<close>

record process =
  srv :: server
  snapshot :: "cache option"
  stdin :: "string list"
  main :: main_pc
  sweeper :: sweeper_pc
  listener :: thread
  events :: "event list"

definition start_dns :: "server \<Rightarrow> string list \<Rightarrow> process" where
  "start_dns s lines =
     \<lparr>srv = s\<lparr>stdout := stdout s @ [StartLine, ExitHintLine]\<rparr>, snapshot = None,
      stdin = lines, main = AtInput, sweeper = AtWhile, listener = Looping, events = []\<rparr>"

text \<open>Opening the file, pickling the cache and writing are taken to succeed.\<close>

definition save_dns_cache :: "process \<Rightarrow> process" where
  "save_dns_cache p = p\<lparr>snapshot := Some (dns_cache (srv p))\<rparr>"

text \<open>
  The main thread: \<^verbatim>\<open>stop = input()\<close> waits while there is no line; on
  \<^verbatim>\<open>"exit"\<close> follow \<^verbatim>\<open>self.running = False\<close>, \<^verbatim>\<open>self.save_dns_cache()\<close>, the
  \<^verbatim>\<open>print\<close> and \<^verbatim>\<open>sys.exit(0)\<close>, with nothing between them.
\<close>

definition main_step :: "process \<Rightarrow> process" where
  "main_step p =
     (case main p of
        AtInput \<Rightarrow>
          (case stdin p of
             [] \<Rightarrow> p
           | stop # rest \<Rightarrow>
               p\<lparr>stdin := rest, main := (if stop = ''exit'' then AtSetRunning else AtInput)\<rparr>)
      | AtSetRunning \<Rightarrow>
          p\<lparr>srv := (srv p)\<lparr>running := False\<rparr>, main := AtSave,
            events := events p @ [FlagCleared]\<rparr>
      | AtSave \<Rightarrow> (save_dns_cache p)\<lparr>main := AtPrint, events := events p @ [SnapshotSaved]\<rparr>
      | AtPrint \<Rightarrow>
          p\<lparr>srv := (srv p)\<lparr>stdout := stdout (srv p) @ [ShutdownLine]\<rparr>, main := AtExit\<rparr>
      | AtExit \<Rightarrow> p\<lparr>main := Finished, events := events p @ [ExitCalled]\<rparr>
      | Finished \<Rightarrow> p)"

text \<open>
  The sweeper.  Taking the next key of a dictionary whose size is no longer the size it
  had when the loop began raises \<^verbatim>\<open>RuntimeError\<close> (dictionary changed size during
  iteration), which nothing catches; the test comes before the test for the end of the
  keys.  \<open>now\<close> is the reading of the clock, used when an entry is looked at.
\<close>

definition sweeper_step :: "datetime \<Rightarrow> process \<Rightarrow> process" where
  "sweeper_step now p =
     (case sweeper p of
        AtWhile \<Rightarrow>
          if running (srv p)
          then p\<lparr>sweeper := OuterNext 0 (length (dns_cache (srv p))) []\<rparr>
          else p\<lparr>sweeper := SweeperLeft\<rparr>
      | OuterNext i n rs \<Rightarrow>
          if length (dns_cache (srv p)) \<noteq> n then p\<lparr>sweeper := SweeperDied RuntimeError\<rparr>
          else if i < n then
            p\<lparr>sweeper := InnerNext (Suc i) n (fst (dns_cache (srv p) ! i)) 0
                              (length (snd (dns_cache (srv p) ! i))) rs\<rparr>
          else p\<lparr>sweeper := Removing rs\<rparr>
      | InnerNext i n domain_name j m rs \<Rightarrow>
          (case map_of (dns_cache (srv p)) domain_name of
             None \<Rightarrow> p\<lparr>sweeper := SweeperDied KeyError\<rparr>
           | Some inner \<Rightarrow>
               if length inner \<noteq> m then p\<lparr>sweeper := SweeperDied RuntimeError\<rparr>
               else if j < m then
                 p\<lparr>sweeper := InnerNext i n domain_name (Suc j) m
                      (if e_time_end (snd (inner ! j)) \<le> now
                       then rs @ [(domain_name, fst (inner ! j))] else rs)\<rparr>
               else p\<lparr>sweeper := OuterNext i n rs\<rparr>)
      | Removing rs \<Rightarrow>
          (case rs of
             [] \<Rightarrow> p\<lparr>sweeper := AtWhile\<rparr>
           | (domain_name, q_type) # rest \<Rightarrow>
               (let s1 = (srv p)\<lparr>stdout := stdout (srv p) @ [RemovingExpired domain_name q_type]\<rparr>
                in case del_record domain_name q_type (dns_cache s1) of
                     Inl e \<Rightarrow> p\<lparr>srv := s1, sweeper := SweeperDied e\<rparr>
                   | Inr c \<Rightarrow> p\<lparr>srv := s1\<lparr>dns_cache := c\<rparr>, sweeper := Removing rest\<rparr>))
      | SweeperLeft \<Rightarrow> p
      | SweeperDied e \<Rightarrow> p)"

definition listener_step :: "parser \<Rightarrow> qtype_table \<Rightarrow> packer \<Rightarrow> arrival \<Rightarrow> process \<Rightarrow> process" where
  "listener_step parse QTYPE pack i p =
     (case listener p of
        Looping \<Rightarrow>
          if running (srv p) then
            (case iteration parse QTYPE pack new_socket new_socket i (srv p) of
               Next s' \<Rightarrow> p\<lparr>srv := s'\<rparr>
             | Break s' \<Rightarrow> p\<lparr>srv := s', listener := Left\<rparr>
             | Escapes e s' \<Rightarrow>
                 p\<lparr>srv := (if is_socket_error e
                             then s'\<lparr>stdout := stdout s' @ [SocketErrorLine]\<rparr> else s'),
                   listener := Died e\<rparr>
             | Stuck s' \<Rightarrow> p\<lparr>srv := s', listener := Waiting\<rparr>)
          else p\<lparr>listener := Left\<rparr>
      | Left \<Rightarrow> p
      | Died e \<Rightarrow> p
      | Waiting \<Rightarrow> p)"

datatype action = Main | Sweeper datetime | Listener arrival

definition step :: "parser \<Rightarrow> qtype_table \<Rightarrow> packer \<Rightarrow> action \<Rightarrow> process \<Rightarrow> process" where
  "step parse QTYPE pack act p =
     (case act of
        Main \<Rightarrow> main_step p
      | Sweeper now \<Rightarrow> sweeper_step now p
      | Listener i \<Rightarrow> listener_step parse QTYPE pack i p)"

fun execute :: "parser \<Rightarrow> qtype_table \<Rightarrow> packer \<Rightarrow> action list \<Rightarrow> process \<Rightarrow> process" where
  "execute parse QTYPE pack [] p = p"
| "execute parse QTYPE pack (act # schedule) p =
     execute parse QTYPE pack schedule (step parse QTYPE pack act p)"

text \<open>The steps of the main thread in a schedule.\<close>

definition main_only :: "action list \<Rightarrow> action list" where
  "main_only schedule = filter (\<lambda>act. act = Main) schedule"

text \<open>The events the main thread has produced when it stands at a statement.\<close>

definition done_at :: "main_pc \<Rightarrow> event list" where
  "done_at pc =
     (case pc of
        AtInput \<Rightarrow> []
      | AtSetRunning \<Rightarrow> []
      | AtSave \<Rightarrow> [FlagCleared]
      | AtPrint \<Rightarrow> [FlagCleared, SnapshotSaved]
      | AtExit \<Rightarrow> [FlagCleared, SnapshotSaved]
      | Finished \<Rightarrow> [FlagCleared, SnapshotSaved, ExitCalled])"

text \<open>
  What holds of the process at every moment: the events are those of the position of the
  main thread, the flag is up exactly before its assignment, and there is a snapshot
  exactly after \<^verbatim>\<open>save_dns_cache\<close>.
\<close>

definition orderly :: "process \<Rightarrow> bool" where
  "orderly p =
     (events p = done_at (main p)
      \<and> running (srv p) = (main p = AtInput \<or> main p = AtSetRunning)
      \<and> (snapshot p = None) = (main p = AtInput \<or> main p = AtSetRunning \<or> main p = AtSave))"

section \<open>Sample surroundings for concrete runs\<close>

text \<open>
  Concrete runs need concrete surroundings.  The decoder below knows three datagrams:
  \<open>[1]\<close> is a query for the A record of \<^verbatim>\<open>example.com.\<close>, \<open>[2]\<close> an answer to
  it with one record of ttl 300, \<open>[3]\<close> an answer with no record; any other datagram
  is not a DNS message.  The sample encoder writes the identifier and the payloads.
\<close>

abbreviation client :: address where
  "client \<equiv> (''127.0.0.1'', 40000)"

abbreviation query_A :: dns_record where
  "query_A \<equiv> \<lparr>header = \<lparr>hid = 7, bitmap = 256, n_q = 1, n_a = 0\<rparr>,
      questions = [\<lparr>qname = ''example.com.'', qtype = 1\<rparr>], rr = []\<rparr>"

abbreviation reply300 :: dns_record where
  "reply300 \<equiv> \<lparr>header = \<lparr>hid = 7, bitmap = 33152, n_q = 1, n_a = 1\<rparr>,
      questions = [\<lparr>qname = ''example.com.'', qtype = 1\<rparr>],
      rr = [\<lparr>rname = ''example.com.'', rtype = 1, rdata = [93, 184, 216, 34], rr_ttl = 300\<rparr>]\<rparr>"

abbreviation reply_empty :: dns_record where
  "reply_empty \<equiv> \<lparr>header = \<lparr>hid = 7, bitmap = 33155, n_q = 1, n_a = 0\<rparr>,
      questions = [\<lparr>qname = ''example.com.'', qtype = 1\<rparr>], rr = []\<rparr>"

abbreviation codec :: parser where
  "codec \<equiv> map_of [([1], query_A), ([2], reply300), ([3], reply_empty)]"

abbreviation qtypes :: qtype_table where
  "qtypes \<equiv> map_of [(1, ''A''), (2, ''NS''), (28, ''AAAA'')]"

definition sample_pack :: packer where
  "sample_pack r = hid (header r) # concat (map rdata (rr r))"

abbreviation stale_entry :: entry where
  "stale_entry \<equiv> \<lparr>e_r_data = [[10, 0, 0, 1]], e_time_end = 1600000000000000, e_ttl = 60\<rparr>"

abbreviation fresh_entry :: entry where
  "fresh_entry \<equiv> \<lparr>e_r_data = [[10, 0, 0, 1], [10, 0, 0, 2]], e_time_end = 1800000000000000, e_ttl = 60\<rparr>"

abbreviation expiring_entry :: entry where
  "expiring_entry \<equiv> \<lparr>e_r_data = [[10, 0, 0, 3]], e_time_end = 1700000000000030, e_ttl = 60\<rparr>"

abbreviation empty_server :: server where
  "empty_server \<equiv> \<lparr>dns_cache = [], running = True, to_upstream = [], to_client = [], stdout = []\<rparr>"

abbreviation query_arrival :: arrival where
  "query_arrival \<equiv> \<lparr>from_client = Datagram [1] client, from_upstream = Datagram [2] upstream,
      now_lookup = 1700000000000000, now_store = 1700000000000000\<rparr>"

abbreviation quiet :: arrival where
  "quiet \<equiv> \<lparr>from_client = Silence, from_upstream = Silence,
      now_lookup = 1700000005000000, now_store = 1700000005000000\<rparr>"

abbreviation cached_answer :: entry where
  "cached_answer \<equiv>
     \<lparr>e_r_data = [[93, 184, 216, 34]], e_time_end = 1700000000300000, e_ttl = 300\<rparr>"

text \<open>
  A sample \<^verbatim>\<open>pickle.loads\<close>: the empty input raises \<^verbatim>\<open>EOFError\<close>, the bytes
  \<^verbatim>\<open>80 04 7d 94 2e\<close> are the pickle of the empty dictionary, anything else is no
  pickle.
\<close>

definition sample_loads :: unpickler where
  "sample_loads content =
     (if content = [] then Inl EOFError
      else if content = [128, 4, 125, 148, 46] then Inr []
      else Inl UnpicklingError)"

section \<open>Properties of the dictionary operations\<close>

lemma map_of_setdefault:
  "map_of (setdefault k v d) k' = (if k' = k \<and> map_of d k = None then Some v else map_of d k')"
  by (auto simp: setdefault_def map_add_def split: option.splits)

lemma lookup_store_answer:
  "lookup (store_answer d q e c) d' q' =
     (if d' = d \<and> q' = q \<and> lookup c d q = None then Some e else lookup c d' q')"
  by (auto simp: lookup_def store_answer_def Let_def map_of_setdefault update_conv'
           split: option.splits if_splits)

section \<open>Forwarding: what is stored and what is relayed\<close>

lemmas run_defs =
  make_request_def recvfrom_def get_response_info_def store_answer_def setdefault_def
  timedelta_milliseconds_def new_socket_def settimeout_def iteration_def
  get_request_info_def get_q_def lookup_def of_outcome_def working_dns_def
  is_socket_error_def

text \<open>
  A decoded answer is stored under the expiry \<open>now + ttl * 1000\<close> microseconds, and the
  bytes of the upstream go to the client as they came.
\<close>

lemma make_request_Datagram:
  assumes "get_response_info parse d = Inr (t, rs)" and "d \<noteq> []"
  shows "make_request parse now (Datagram d a) s sock dreq dn qt addr =
           Returns (s\<lparr>to_upstream := to_upstream s @ [(dreq, upstream)],
                      dns_cache := store_answer dn qt
                         \<lparr>e_r_data = rs, e_time_end = now + t * 1000, e_ttl = t\<rparr> (dns_cache s),
                      to_client := to_client s @ [(d, addr)]\<rparr>)"
  using assms by (simp add: make_request_def recvfrom_def timedelta_milliseconds_def Let_def)

text \<open>
  C1.  The claim: an answer with ttl 300 inserted at time \<open>t\<close> is stored with the expiry
  \<open>t\<close> plus 300 seconds.  The code adds \<^verbatim>\<open>timedelta(milliseconds=ttl)\<close>: the answer
  \<open>[2]\<close> (ttl 300), forwarded at 1700000000000000 microseconds into an empty cache, is
  stored with the expiry 1700000000300000, which is 0.3 seconds later and not the 300
  seconds (1700000300000000) of the claim.
\<close>

theorem make_request_ttl_300_expires_after_300_ms:
  "make_request codec 1700000000000000 (Datagram [2] upstream) empty_server
     new_socket [1] ''example.com.'' ''A'' client
   = Returns \<lparr>dns_cache = [(''example.com.'', [(''A'',
        \<lparr>e_r_data = [[93, 184, 216, 34]], e_time_end = 1700000000300000, e_ttl = 300\<rparr>)])],
      running = True, to_upstream = [([1], upstream)], to_client = [([2], client)],
      stdout = []\<rparr>"
  by (simp add: run_defs)

text \<open>
  C2.  The claim: inserting an entry for a key that already has one replaces it.  The
  code inserts with \<^verbatim>\<open>setdefault\<close>, which keeps what is there.  A query for a key
  whose entry is stale is forwarded, the upstream answers \<open>[2]\<close>, the answer is relayed,
  and the cache still holds the stale entry.
\<close>

theorem iteration_stale_entry_not_replaced:
  "iteration codec qtypes sample_pack new_socket new_socket
     \<lparr>from_client = Datagram [1] client, from_upstream = Datagram [2] upstream,
      now_lookup = 1700000000000000, now_store = 1700000000000500\<rparr>
     (empty_server\<lparr>dns_cache := [(''example.com.'', [(''A'', stale_entry)])]\<rparr>)
   = Next \<lparr>dns_cache = [(''example.com.'', [(''A'', stale_entry)])],
      running = True, to_upstream = [([1], upstream)], to_client = [([2], client)],
      stdout = []\<rparr>"
  by (simp add: run_defs)

text \<open>
  C6.  The claim: every wait for the upstream's reply is bounded by a timeout.  The
  socket \<^verbatim>\<open>sock_send\<close> is created in \<^verbatim>\<open>working_dns\<close> and no timeout is ever set
  on it (only \<^verbatim>\<open>sock_rec\<close> gets one), so when the upstream stays silent
  \<^verbatim>\<open>recvfrom\<close> never returns: \<^verbatim>\<open>make_request\<close> hangs after sending the query,
  whatever its other arguments, and the listener with it; the second query of the run
  below is never read.
\<close>

theorem make_request_silent_upstream_hangs:
  "make_request parse now Silence s new_socket data_request domain_name q_type address_request
     = Hangs (s\<lparr>to_upstream := to_upstream s @ [(data_request, upstream)]\<rparr>)
   \<and> working_dns codec qtypes sample_pack True
       [\<lparr>from_client = Datagram [1] client, from_upstream = Silence,
         now_lookup = 1700000000000000, now_store = 1700000000000500\<rparr>,
        \<lparr>from_client = Datagram [1] client, from_upstream = Datagram [2] upstream,
         now_lookup = 1700000001000000, now_store = 1700000001000500\<rparr>]
       empty_server
     = Blocked (empty_server\<lparr>to_upstream := [([1], upstream)]\<rparr>)"
  by (simp add: run_defs)

text \<open>
  C7.  The claim: an upstream reply with an empty record list is not cached but is still
  relayed to the client.  It is not relayed: \<^verbatim>\<open>response.rr[0]\<close> raises
  \<^verbatim>\<open>IndexError\<close> inside the \<^verbatim>\<open>try\<close>, before the \<^verbatim>\<open>sendto\<close>.  The reply \<open>[3]\<close>
  has no record; nothing reaches the client.
\<close>

theorem make_request_empty_answer_not_relayed:
  "make_request codec 1700000000000000 (Datagram [3] upstream) empty_server
     new_socket [1] ''example.com.'' ''A'' client
   = Returns \<lparr>dns_cache = [], running = True, to_upstream = [([1], upstream)],
       to_client = [], stdout = [IncorrectRequest]\<rparr>"
  by (simp add: run_defs)

text \<open>
  C7, as the code has it: for every upstream reply whose decoded record list is empty,
  \<^verbatim>\<open>make_request\<close> returns, and the state it leaves is the state it found but for
  the query sent to the upstream and for the line \<^verbatim>\<open>print\<close> writes in the handler:
  the cache is as it was and nothing is sent to the client.  (The line is written for
  every reply that is not the empty datagram, which the \<^verbatim>\<open>if\<close> skips.)
\<close>

theorem make_request_empty_answer:
  assumes "parse data_response = Some response" and "rr response = []"
  shows "make_request parse now (Datagram data_response address_response) s sock_send
           data_request domain_name q_type address_request
         = Returns (s\<lparr>to_upstream := to_upstream s @ [(data_request, upstream)],
                      stdout := stdout s @ (if data_response = [] then []
                                            else [IncorrectRequest])\<rparr>)"
  using assms
  by (cases "data_response = []")
     (simp_all add: make_request_def recvfrom_def get_response_info_def)

theorem make_request_empty_answer_witness:
  "codec [3] = Some reply_empty \<and> rr reply_empty = [] \<and>
   make_request codec 1700000000000000 (Datagram [3] upstream)
     (empty_server\<lparr>dns_cache := [(''example.com.'', [(''A'', stale_entry)])]\<rparr>)
     new_socket [1] ''example.com.'' ''A'' client
   = Returns \<lparr>dns_cache = [(''example.com.'', [(''A'', stale_entry)])], running = True,
       to_upstream = [([1], upstream)], to_client = [], stdout = [IncorrectRequest]\<rparr>"
  using make_request_empty_answer [of codec "[3]" reply_empty 1700000000000000 upstream
      "empty_server\<lparr>dns_cache := [(''example.com.'', [(''A'', stale_entry)])]\<rparr>"
      new_socket "[1]" "''example.com.''" "''A''" client]
  by simp

section \<open>The listener\<close>

text \<open>
  C3.  The claim: a datagram that cannot be decoded is dropped and the receive loop goes
  on.  \<^verbatim>\<open>get_request_info\<close> is called outside any handler for the decoder's error
  (the handlers around the loop catch \<^verbatim>\<open>socket.error\<close> only, while
  \<^verbatim>\<open>make_request\<close> guards its own decoding with \<^verbatim>\<open>except Exception\<close>): the
  error leaves \<^verbatim>\<open>working_dns\<close>.  The datagram \<open>[255]\<close> is not a DNS message; the
  valid query behind it is never served.
\<close>

theorem working_dns_undecodable_datagram_crashes:
  "working_dns codec qtypes sample_pack True
     [\<lparr>from_client = Datagram [255] client, from_upstream = Silence,
       now_lookup = 1700000000000000, now_store = 1700000000000500\<rparr>,
      \<lparr>from_client = Datagram [1] client, from_upstream = Datagram [2] upstream,
       now_lookup = 1700000001000000, now_store = 1700000001000500\<rparr>]
     empty_server
   = Crashed DNSError empty_server"
  by (simp add: run_defs)

section \<open>Answers built from the cache\<close>

lemma rr_add_answers:
  "rr (add_answers question t rs response) =
     rr response @ map (\<lambda>r_data. \<lparr>rname = qname question, rtype = qtype question,
                                  rdata = r_data, rr_ttl = t\<rparr>) rs"
  by (induction rs arbitrary: response) (simp_all add: add_answer_def set_header_qa_def)

lemma questions_add_answers:
  "questions (add_answers question t rs response) = questions response"
  by (induction rs arbitrary: response) (simp_all add: add_answer_def set_header_qa_def)

text \<open>
  C10.  On a fresh cache hit the listener sends the client the encoding of a record whose
  only question is the incoming one and whose answers are the cached payloads, in their
  order, each under the name and the type of the incoming question and with the ttl
  stored in the entry.
\<close>

theorem iteration_fresh_hit_answers:
  assumes "from_client i = Datagram data_request address_request"
    and "data_request \<noteq> []"
    and "parse data_request = Some request"
    and "questions request = question # rest"
    and "QTYPE (qtype question) = Some q_type"
    and "lookup (dns_cache s) (qname question) q_type = Some e"
    and "now_lookup i < e_time_end e"
  shows "\<exists>response.
           iteration parse QTYPE pack sock_rec sock_send i s =
             Next (s\<lparr>stdout := stdout s @ [TakenFromCache (qname question) q_type],
                      to_client := to_client s @ [(pack response, address_request)]\<rparr>)
         \<and> prepare_dns_record parse (dns_cache s) data_request (qname question) q_type =
             Inr response
         \<and> questions response = [question]
         \<and> rr response = map (\<lambda>r_data. \<lparr>rname = qname question, rtype = qtype question,
                                           rdata = r_data, rr_ttl = e_ttl e\<rparr>) (e_r_data e)"
  using assms
  by (simp add: iteration_def recvfrom_def settimeout_def get_request_info_def get_q_def
        prepare_dns_response_def prepare_dns_record_def rr_add_answers questions_add_answers
        add_question_def set_header_qa_def)

theorem iteration_fresh_hit_answers_witness:
  "codec [1] = Some query_A
   \<and> qtypes 1 = Some ''A''
   \<and> lookup [(''example.com.'', [(''A'', fresh_entry)])] ''example.com.'' ''A'' = Some fresh_entry
   \<and> (\<exists>response.
         iteration codec qtypes sample_pack new_socket new_socket
           \<lparr>from_client = Datagram [1] client, from_upstream = Silence,
            now_lookup = 1700000000000000, now_store = 1700000000000500\<rparr>
           (empty_server\<lparr>dns_cache := [(''example.com.'', [(''A'', fresh_entry)])]\<rparr>)
         = Next \<lparr>dns_cache = [(''example.com.'', [(''A'', fresh_entry)])], running = True,
                  to_upstream = [],
                  to_client = [(sample_pack response, client)],
                  stdout = [TakenFromCache ''example.com.'' ''A'']\<rparr>
       \<and> rr response =
           [\<lparr>rname = ''example.com.'', rtype = 1, rdata = [10, 0, 0, 1], rr_ttl = 60\<rparr>,
            \<lparr>rname = ''example.com.'', rtype = 1, rdata = [10, 0, 0, 2], rr_ttl = 60\<rparr>])"
  using iteration_fresh_hit_answers
    [of "\<lparr>from_client = Datagram [1] client, from_upstream = Silence,
          now_lookup = 1700000000000000, now_store = 1700000000000500\<rparr>"
        "[1]" client codec query_A "\<lparr>qname = ''example.com.'', qtype = 1\<rparr>" "[]"
        qtypes "''A''"
        "empty_server\<lparr>dns_cache := [(''example.com.'', [(''A'', fresh_entry)])]\<rparr>"
        fresh_entry sample_pack new_socket new_socket]
  apply (simp add: lookup_def)
  apply (erule exE)
  apply (rule_tac x = response in exI)
  apply (simp add: run_defs prepare_dns_response_def)
  done

section \<open>Loading the snapshot\<close>

text \<open>
  What \<^verbatim>\<open>read_cache\<close> does in each case: \<^verbatim>\<open>EOFError\<close> of \<^verbatim>\<open>pickle.loads\<close> is
  caught and gives the empty cache; a missing file and every other error of
  \<^verbatim>\<open>pickle.loads\<close> are raised on.
\<close>

lemma read_cache_cases:
  "(fs1 path_file = Some content1 \<and> loads content1 = Inl EOFError
      \<longrightarrow> read_cache loads fs1 path_file = Inr [])
   \<and> (fs2 path_file = Some content2 \<and> loads content2 = Inr c
      \<longrightarrow> read_cache loads fs2 path_file = Inr c)
   \<and> (fs3 path_file = None \<longrightarrow> read_cache loads fs3 path_file = Inl FileNotFoundError)
   \<and> (fs4 path_file = Some content4 \<and> loads content4 = Inl e \<and> e \<noteq> EOFError
      \<longrightarrow> read_cache loads fs4 path_file = Inl e)"
  by (simp add: read_cache_def)

text \<open>An exception of \<^verbatim>\<open>read_cache\<close> ends \<^verbatim>\<open>__init__\<close>: the server never starts.\<close>

lemma read_cache_error_ends_init:
  "read_cache loads fs ''dns_cache.pickle'' = Inl e \<Longrightarrow> init loads fs = Inl e"
  by (simp add: init_def)

lemma init_missing_file:
  "fs ''dns_cache.pickle'' = None \<Longrightarrow> init loads fs = Inl FileNotFoundError"
  by (simp add: init_def read_cache_def)

lemma init_corrupt_file:
  "fs ''dns_cache.pickle'' = Some content \<Longrightarrow> loads content = Inl e \<Longrightarrow> e \<noteq> EOFError
     \<Longrightarrow> init loads fs = Inl e"
  by (simp add: init_def read_cache_def)

text \<open>
  C4.  The claim: loading the snapshot never fails the start, whether the file is missing,
  empty or corrupt.  \<^verbatim>\<open>read_cache\<close> recovers from the empty file only
  (\<^verbatim>\<open>except EOFError: return {}\<close>).  With no file, \<^verbatim>\<open>open\<close>, which stands outside
  the \<^verbatim>\<open>try\<close>, raises \<^verbatim>\<open>FileNotFoundError\<close>; with three bytes that are no pickle,
  \<^verbatim>\<open>pickle.loads\<close> raises an error that is not \<^verbatim>\<open>EOFError\<close>; both leave
  \<^verbatim>\<open>read_cache\<close> and end \<^verbatim>\<open>__init__\<close>, while the empty file gives the empty
  cache and a server that starts.
\<close>

theorem read_cache_missing_or_corrupt_raises:
  "read_cache sample_loads Map.empty ''dns_cache.pickle'' = Inl FileNotFoundError
   \<and> init sample_loads Map.empty = Inl FileNotFoundError
   \<and> read_cache sample_loads [''dns_cache.pickle'' \<mapsto> [103, 97, 114]] ''dns_cache.pickle''
       = Inl UnpicklingError
   \<and> init sample_loads [''dns_cache.pickle'' \<mapsto> [103, 97, 114]] = Inl UnpicklingError
   \<and> init sample_loads [''dns_cache.pickle'' \<mapsto> []] = Inr empty_server"
  by (simp add: read_cache_def init_def sample_loads_def)

section \<open>Removing an entry\<close>

lemma lookup_del_record:
  "del_record d q c = Inr c' \<Longrightarrow>
     lookup c' d' q' = (if d' = d \<and> q' = q then None else lookup c d' q')"
  by (auto simp: del_record_def delitem_def lookup_def update_conv' delete_conv'
           split: option.splits if_splits)

lemma del_record_absent:
  "lookup c d q = None \<Longrightarrow> del_record d q c = Inl KeyError"
  by (auto simp: del_record_def delitem_def lookup_def split: option.splits)

lemma del_record_present:
  "lookup c d q = Some e \<Longrightarrow> \<exists>c'. del_record d q c = Inr c'"
  by (auto simp: del_record_def delitem_def lookup_def split: option.splits)

section \<open>The sweep pass\<close>

lemma scan_types_eq:
  "scan_types clock n d inner rs =
     (n + length inner,
      rs @ map (\<lambda>p. (d, fst (snd p)))
             (filter (\<lambda>p. e_time_end (snd (snd p)) \<le> clock (fst p)) (enumerate n inner)))"
  by (induction inner arbitrary: n rs) auto

lemma enumerate_map:
  "enumerate n (map f xs) = map (\<lambda>p. (fst p, f (snd p))) (enumerate n xs)"
  by (induction xs arbitrary: n) auto

lemma items_Cons:
  "items ((d, inner) # rest) = map (\<lambda>p. (d, fst p, snd p)) inner @ items rest"
  by (simp add: items_def case_prod_beta)

lemma scan_domains_eq:
  "scan_domains clock n c rs =
     (n + length (items c),
      rs @ map (\<lambda>p. (fst (snd p), fst (snd (snd p))))
             (filter (\<lambda>p. e_time_end (snd (snd (snd p))) \<le> clock (fst p))
                (enumerate n (items c))))"
proof (induction c arbitrary: n rs)
  case Nil
  then show ?case by (simp add: items_def)
next
  case (Cons x c)
  obtain d inner where x: "x = (d, inner)" by (cases x)
  show ?case
    by (simp add: x items_Cons scan_types_eq Cons.IH enumerate_append_eq enumerate_map
          filter_map comp_def add.commute add.left_commute)
qed


lemma in_items_iff:
  "(d, q, e) \<in> set (items c) \<longleftrightarrow> (\<exists>inner. (d, inner) \<in> set c \<and> (q, e) \<in> set inner)"
  by (induction c) (auto simp: items_def)

lemma in_items_lookup:
  assumes "wf_cache c"
  shows "(d, q, e) \<in> set (items c) \<longleftrightarrow> lookup c d q = Some e"
proof -
  from assms have dc: "distinct (map fst c)"
    and di: "\<And>d inner. (d, inner) \<in> set c \<Longrightarrow> distinct (map fst inner)"
    by (auto simp: wf_cache_def list_all_iff)
  show ?thesis
  proof
    assume "(d, q, e) \<in> set (items c)"
    then obtain inner where i: "(d, inner) \<in> set c" and qe: "(q, e) \<in> set inner"
      by (auto simp: in_items_iff)
    from dc i have "map_of c d = Some inner" by simp
    moreover from di [OF i] qe have "map_of inner q = Some e" by simp
    ultimately show "lookup c d q = Some e" by (simp add: lookup_def)
  next
    assume "lookup c d q = Some e"
    then obtain inner where i: "map_of c d = Some inner" and qe: "map_of inner q = Some e"
      by (auto simp: lookup_def split: option.splits)
    from i have "(d, inner) \<in> set c" by (rule map_of_SomeD)
    moreover from qe have "(q, e) \<in> set inner" by (rule map_of_SomeD)
    ultimately show "(d, q, e) \<in> set (items c)" by (auto simp: in_items_iff)
  qed
qed

lemma distinct_items_keys:
  assumes "wf_cache c"
  shows "distinct (map (\<lambda>x. (fst x, fst (snd x))) (items c))"
  using assms
proof (induction c)
  case Nil
  then show ?case by (simp add: items_def)
next
  case (Cons x c)
  obtain d inner where x: "x = (d, inner)" by (cases x)
  from Cons.prems have wf: "wf_cache c" and dn: "d \<notin> fst ` set c"
    and di: "distinct (map fst inner)"
    by (auto simp: wf_cache_def x)
  have a: "distinct (map (\<lambda>x. (fst x, fst (snd x))) (map (\<lambda>p. (d, fst p, snd p)) inner))"
    using di by (simp add: comp_def distinct_map inj_on_def)
  have b: "\<And>y. y \<in> set (items c) \<Longrightarrow> fst y \<noteq> d"
  proof -
    fix y assume "y \<in> set (items c)"
    then obtain inner' where "(fst y, inner') \<in> set c"
      using in_items_iff [of "fst y" "fst (snd y)" "snd (snd y)" c] by auto
    with dn show "fst y \<noteq> d" by force
  qed
  show ?case
    using a b Cons.IH [OF wf] by (auto simp: x items_Cons)
qed

lemma remove_records_lookup:
  assumes "distinct rs" and "\<And>d q. (d, q) \<in> set rs \<Longrightarrow> lookup (dns_cache s) d q \<noteq> None"
  shows "\<exists>s'. remove_records rs s = Returns s'
             \<and> (\<forall>d q. lookup (dns_cache s') d q =
                    (if (d, q) \<in> set rs then None else lookup (dns_cache s) d q))
             \<and> running s' = running s \<and> to_client s' = to_client s
             \<and> to_upstream s' = to_upstream s"
  using assms
proof (induction rs arbitrary: s)
  case Nil
  then show ?case by simp
next
  case (Cons r rs)
  obtain d q where r: "r = (d, q)" by (cases r)
  from Cons.prems(2) [of d q] obtain e where "lookup (dns_cache s) d q = Some e"
    by (auto simp: r)
  then obtain c' where c': "del_record d q (dns_cache s) = Inr c'"
    using del_record_present by blast
  let ?s1 = "s\<lparr>stdout := stdout s @ [RemovingExpired d q], dns_cache := c'\<rparr>"
  have lk: "\<And>d' q'. lookup c' d' q' = (if d' = d \<and> q' = q then None else lookup (dns_cache s) d' q')"
    using lookup_del_record [OF c'] by simp
  have "distinct rs" and notin: "(d, q) \<notin> set rs" using Cons.prems(1) by (auto simp: r)
  moreover have "\<And>d' q'. (d', q') \<in> set rs \<Longrightarrow> lookup (dns_cache ?s1) d' q' \<noteq> None"
    using Cons.prems(2) notin by (auto simp: lk r)
  ultimately obtain s' where s': "remove_records rs ?s1 = Returns s'"
    and l': "\<forall>d' q'. lookup (dns_cache s') d' q' =
                (if (d', q') \<in> set rs then None else lookup (dns_cache ?s1) d' q')"
    and rest: "running s' = running ?s1" "to_client s' = to_client ?s1"
              "to_upstream s' = to_upstream ?s1"
    using Cons.IH [of ?s1] by blast
  have "remove_records (r # rs) s = Returns s'"
    using s' c' by (simp add: r)
  moreover have "\<forall>d' q'. lookup (dns_cache s') d' q' =
                (if (d', q') \<in> set (r # rs) then None else lookup (dns_cache s) d' q')"
    using l' lk by (auto simp: r)
  ultimately show ?case using rest by simp
qed


lemma records_to_remove_iff:
  "(d, q) \<in> set (snd (scan_domains clock 0 c [])) \<longleftrightarrow>
     (\<exists>i e. i < length (items c) \<and> items c ! i = (d, q, e) \<and> e_time_end e \<le> clock i)"
  by (force simp: scan_domains_eq in_set_enumerate_eq image_iff)

lemma distinct_records_to_remove:
  assumes "wf_cache c"
  shows "distinct (snd (scan_domains clock 0 c []))"
proof -
  have "map (\<lambda>p. (fst (snd p), fst (snd (snd p)))) (enumerate 0 (items c))
          = map (\<lambda>x. (fst x, fst (snd x))) (map snd (enumerate 0 (items c)))"
    by (simp only: map_map comp_def)
  then have "distinct (map (\<lambda>p. (fst (snd p), fst (snd (snd p)))) (enumerate 0 (items c)))"
    using distinct_items_keys [OF assms] by (simp only: map_snd_enumerate)
  then show ?thesis
    by (simp add: scan_domains_eq distinct_map_filter)
qed

lemma items_index_unique:
  assumes wf: "wf_cache c"
    and i: "i < length (items c)" "items c ! i = (d, q, e)"
    and j: "j < length (items c)" "items c ! j = (d, q, e')"
  shows "j = i"
proof -
  let ?ks = "map (\<lambda>x. (fst x, fst (snd x))) (items c)"
  have d: "distinct ?ks" using wf by (rule distinct_items_keys)
  have eq: "?ks ! j = ?ks ! i" using i j by simp
  have len: "j < length ?ks" "i < length ?ks" using i j by simp_all
  from nth_eq_iff_index_eq [OF d len] eq show ?thesis by blast
qed

text \<open>
  C8, as the code has it.  The cache is a dictionary of dictionaries.  Then a pass
  returns; every entry of the cache is met at one position of the scan; the entry met
  at position \<open>i\<close> remains, as it was, exactly when it is fresh at \<open>clock i\<close>, the
  reading the pass takes for it, and is gone otherwise; and the pass adds nothing.
  When the clock does not go back during the pass, no entry whose expiry is at or
  before the first reading remains.
\<close>

theorem sweep_pass_keeps_what_is_fresh_at_its_reading:
  assumes wf: "wf_cache (dns_cache s)"
  shows "\<exists>s'. sweep_pass clock s = Returns s'
     \<and> (\<forall>d q e. lookup (dns_cache s) d q = Some e
            \<longrightarrow> (\<exists>i < length (items (dns_cache s)). items (dns_cache s) ! i = (d, q, e)))
     \<and> (\<forall>i d q e. i < length (items (dns_cache s)) \<and> items (dns_cache s) ! i = (d, q, e)
            \<longrightarrow> lookup (dns_cache s') d q = (if clock i < e_time_end e then Some e else None))
     \<and> (\<forall>d q e. lookup (dns_cache s') d q = Some e \<longrightarrow> lookup (dns_cache s) d q = Some e)
     \<and> (mono clock
          \<longrightarrow> (\<forall>d q e. lookup (dns_cache s) d q = Some e \<and> e_time_end e \<le> clock 0
                 \<longrightarrow> lookup (dns_cache s') d q = None))"
proof -
  let ?c = "dns_cache s"
  let ?rs = "snd (scan_domains clock 0 ?c [])"
  have present: "\<And>d q. (d, q) \<in> set ?rs \<Longrightarrow> lookup ?c d q \<noteq> None"
  proof -
    fix d q assume "(d, q) \<in> set ?rs"
    then obtain i e where "i < length (items ?c)" "items ?c ! i = (d, q, e)"
      by (auto simp: records_to_remove_iff)
    then have "(d, q, e) \<in> set (items ?c)" by (metis nth_mem)
    then show "lookup ?c d q \<noteq> None" using in_items_lookup [OF wf] by simp
  qed
  from remove_records_lookup [OF distinct_records_to_remove [OF wf] present]
  obtain s' where ret: "remove_records ?rs s = Returns s'"
    and lk: "\<forall>d q. lookup (dns_cache s') d q =
               (if (d, q) \<in> set ?rs then None else lookup ?c d q)"
    by blast
  have indexed: "\<forall>d q e. lookup ?c d q = Some e
            \<longrightarrow> (\<exists>i < length (items ?c). items ?c ! i = (d, q, e))"
    using in_items_lookup [OF wf] by (auto simp: in_set_conv_nth)
  have exact: "\<forall>i d q e. i < length (items ?c) \<and> items ?c ! i = (d, q, e)
            \<longrightarrow> lookup (dns_cache s') d q = (if clock i < e_time_end e then Some e else None)"
  proof (intro allI impI)
    fix i d q e
    assume a: "i < length (items ?c) \<and> items ?c ! i = (d, q, e)"
    then have "(d, q, e) \<in> set (items ?c)" by (metis nth_mem)
    then have here: "lookup ?c d q = Some e" using in_items_lookup [OF wf] by simp
    have "(d, q) \<in> set ?rs \<longleftrightarrow> e_time_end e \<le> clock i"
    proof
      assume "(d, q) \<in> set ?rs"
      then obtain j e' where j: "j < length (items ?c)" "items ?c ! j = (d, q, e')"
        and old: "e_time_end e' \<le> clock j"
        by (auto simp: records_to_remove_iff)
      from a j have "j = i" using items_index_unique [OF wf] by blast
      with a j old show "e_time_end e \<le> clock i" by simp
    next
      assume "e_time_end e \<le> clock i"
      with a show "(d, q) \<in> set ?rs" by (auto simp: records_to_remove_iff)
    qed
    with lk here show "lookup (dns_cache s') d q = (if clock i < e_time_end e then Some e else None)"
      by auto
  qed
  have nothing_new: "\<forall>d q e. lookup (dns_cache s') d q = Some e \<longrightarrow> lookup ?c d q = Some e"
    using lk by (auto split: if_splits)
  have forward: "mono clock
          \<longrightarrow> (\<forall>d q e. lookup ?c d q = Some e \<and> e_time_end e \<le> clock 0
                 \<longrightarrow> lookup (dns_cache s') d q = None)"
  proof (intro allI impI)
    fix d q e
    assume mono: "mono clock" and a: "lookup ?c d q = Some e \<and> e_time_end e \<le> clock 0"
    with indexed obtain i where i: "i < length (items ?c)" "items ?c ! i = (d, q, e)" by blast
    from mono have "clock 0 \<le> clock i" by (simp add: monoD)
    with a have "\<not> clock i < e_time_end e" by simp
    with exact i show "lookup (dns_cache s') d q = None" by auto
  qed
  from ret indexed exact nothing_new forward show ?thesis
    unfolding sweep_pass_def by blast
qed

text \<open>
  C8.  The claim: after a pass no entry that expired by the start of the pass remains, and
  no entry that was fresh at the start of the pass has been removed.  The pass reads
  the clock anew for each entry, and \<^verbatim>\<open>datetime.now()\<close> is the local wall clock.
  In the first run the first reading is 1700000000000000 and the second is 40
  microseconds later; the second entry expires at 1700000000000030, so it was fresh
  when the pass started, and the pass removes it.  In the second run the clock is set
  back between the two readings, from 1700000000000040 to 1700000000000020: the second
  entry had expired when the pass started, and it remains.
\<close>

theorem sweep_pass_judges_each_entry_at_its_own_reading:
  "ticking 1700000000000000 40 0 < e_time_end expiring_entry
   \<and> sweep_pass (ticking 1700000000000000 40)
       (empty_server\<lparr>dns_cache :=
          [(''example.com.'', [(''A'', stale_entry), (''AAAA'', expiring_entry)])]\<rparr>)
     = Returns \<lparr>dns_cache = [(''example.com.'', [])], running = True, to_upstream = [],
         to_client = [],
         stdout = [RemovingExpired ''example.com.'' ''A'',
                   RemovingExpired ''example.com.'' ''AAAA'']\<rparr>
   \<and> e_time_end expiring_entry \<le> ticking 1700000000000040 (- 20) 0
   \<and> sweep_pass (ticking 1700000000000040 (- 20))
       (empty_server\<lparr>dns_cache :=
          [(''example.com.'', [(''A'', stale_entry), (''AAAA'', expiring_entry)])]\<rparr>)
     = Returns \<lparr>dns_cache = [(''example.com.'', [(''AAAA'', expiring_entry)])],
         running = True, to_upstream = [], to_client = [],
         stdout = [RemovingExpired ''example.com.'' ''A'']\<rparr>"
  by (simp add: sweep_pass_def del_record_def delitem_def ticking_def)

theorem sweep_pass_keeps_what_is_fresh_at_its_reading_witness:
  "wf_cache [(''example.com.'', [(''A'', stale_entry), (''AAAA'', expiring_entry)]),
             (''example.org.'', [(''A'', fresh_entry)])]
   \<and> mono (ticking 1700000000000000 20)
   \<and> (\<exists>s'. sweep_pass (ticking 1700000000000000 20)
              (empty_server\<lparr>dns_cache :=
                 [(''example.com.'', [(''A'', stale_entry), (''AAAA'', expiring_entry)]),
                  (''example.org.'', [(''A'', fresh_entry)])]\<rparr>) = Returns s'
          \<and> lookup (dns_cache s') ''example.com.'' ''A'' = None
          \<and> lookup (dns_cache s') ''example.com.'' ''AAAA'' = Some expiring_entry
          \<and> lookup (dns_cache s') ''example.org.'' ''A'' = Some fresh_entry)"
proof -
  let ?c = "[(''example.com.'', [(''A'', stale_entry), (''AAAA'', expiring_entry)]),
             (''example.org.'', [(''A'', fresh_entry)])]"
  let ?s = "empty_server\<lparr>dns_cache := ?c\<rparr>"
  let ?clock = "ticking 1700000000000000 20"
  have wf: "wf_cache (dns_cache ?s)" by (simp add: wf_cache_def)
  have mono: "mono ?clock" by (simp add: mono_def ticking_def)
  have its: "items (dns_cache ?s) =
      [(''example.com.'', ''A'', stale_entry), (''example.com.'', ''AAAA'', expiring_entry),
       (''example.org.'', ''A'', fresh_entry)]"
    by (simp add: items_def)
  from sweep_pass_keeps_what_is_fresh_at_its_reading [OF wf, of ?clock]
  obtain s' where ret: "sweep_pass ?clock ?s = Returns s'"
    and exact: "\<forall>i d q e. i < length (items (dns_cache ?s)) \<and> items (dns_cache ?s) ! i = (d, q, e)
            \<longrightarrow> lookup (dns_cache s') d q = (if ?clock i < e_time_end e then Some e else None)"
    and forward: "mono ?clock
          \<longrightarrow> (\<forall>d q e. lookup (dns_cache ?s) d q = Some e \<and> e_time_end e \<le> ?clock 0
                 \<longrightarrow> lookup (dns_cache s') d q = None)"
    by blast
  have "lookup (dns_cache ?s) ''example.com.'' ''A'' = Some stale_entry
        \<and> e_time_end stale_entry \<le> ?clock 0"
    by (simp add: lookup_def ticking_def)
  with forward mono have gone: "lookup (dns_cache s') ''example.com.'' ''A'' = None" by blast
  have "(1::nat) < length (items (dns_cache ?s))
        \<and> items (dns_cache ?s) ! 1 = (''example.com.'', ''AAAA'', expiring_entry)"
    unfolding its by simp
  with exact have "lookup (dns_cache s') ''example.com.'' ''AAAA'' =
      (if ?clock 1 < e_time_end expiring_entry then Some expiring_entry else None)" by blast
  then have kept1: "lookup (dns_cache s') ''example.com.'' ''AAAA'' = Some expiring_entry"
    by (simp add: ticking_def)
  have "(2::nat) < length (items (dns_cache ?s))
        \<and> items (dns_cache ?s) ! 2 = (''example.org.'', ''A'', fresh_entry)"
    unfolding its by simp
  with exact have "lookup (dns_cache s') ''example.org.'' ''A'' =
      (if ?clock 2 < e_time_end fresh_entry then Some fresh_entry else None)" by blast
  then have kept2: "lookup (dns_cache s') ''example.org.'' ''A'' = Some fresh_entry"
    by (simp add: ticking_def)
  from wf mono ret gone kept1 kept2 show ?thesis by auto
qed

section \<open>Removing a key again\<close>
















section \<open>The shutdown\<close>

lemma running_make_request:
  "running (outcome_state (make_request parse now ev s sock dreq dn qt addr)) = running s"
  by (simp add: make_request_def Let_def split: recv_result.splits sum.splits prod.splits)

lemma running_iteration:
  "running (iteration_state (iteration parse QTYPE pack sock_rec sock_send i s)) = running s"
proof -
  have m: "\<And>now ev dreq dn qt addr.
      running (iteration_state (of_outcome (make_request parse now ev s sock_send dreq dn qt addr)))
        = running s"
  proof -
    fix now ev dreq dn qt addr
    show "running (iteration_state (of_outcome (make_request parse now ev s sock_send dreq dn qt addr)))
        = running s"
      using running_make_request [of parse now ev s sock_send dreq dn qt addr]
      by (cases "make_request parse now ev s sock_send dreq dn qt addr")
         (simp_all add: of_outcome_def)
  qed
  show ?thesis
    by (simp add: iteration_def m Let_def
          split: recv_result.splits sum.splits prod.splits option.splits)
qed

text \<open>What a step of a loop thread leaves alone.\<close>

lemma sweeper_step_frame:
  "main (sweeper_step now p) = main p \<and> stdin (sweeper_step now p) = stdin p
   \<and> events (sweeper_step now p) = events p \<and> snapshot (sweeper_step now p) = snapshot p
   \<and> listener (sweeper_step now p) = listener p
   \<and> running (srv (sweeper_step now p)) = running (srv p)"
  by (simp add: sweeper_step_def Let_def
        split: sweeper_pc.splits list.splits option.splits sum.splits prod.splits)

lemma listener_step_frame:
  "main (listener_step parse QTYPE pack i p) = main p
   \<and> stdin (listener_step parse QTYPE pack i p) = stdin p
   \<and> events (listener_step parse QTYPE pack i p) = events p
   \<and> snapshot (listener_step parse QTYPE pack i p) = snapshot p
   \<and> sweeper (listener_step parse QTYPE pack i p) = sweeper p
   \<and> running (srv (listener_step parse QTYPE pack i p)) = running (srv p)"
proof -
  have "running (iteration_state (iteration parse QTYPE pack new_socket new_socket i (srv p)))
          = running (srv p)"
    by (rule running_iteration)
  then show ?thesis
    by (cases "iteration parse QTYPE pack new_socket new_socket i (srv p)")
       (simp_all add: listener_step_def split: thread.splits)
qed

lemma main_step_frame:
  "sweeper (main_step p) = sweeper p \<and> listener (main_step p) = listener p
   \<and> dns_cache (srv (main_step p)) = dns_cache (srv p)"
  by (simp add: main_step_def save_dns_cache_def split: main_pc.splits list.splits)

lemma orderly_main_step: "orderly p \<Longrightarrow> orderly (main_step p)"
  by (cases "main p"; cases "stdin p")
     (simp_all add: orderly_def main_step_def save_dns_cache_def done_at_def)

lemma orderly_frame:
  assumes "orderly p" and "main p' = main p" and "events p' = events p"
    and "snapshot p' = snapshot p" and "running (srv p') = running (srv p)"
  shows "orderly p'"
  using assms by (simp add: orderly_def)

lemma orderly_step:
  assumes "orderly p"
  shows "orderly (step parse QTYPE pack act p)"
proof (cases act)
  case Main
  with assms show ?thesis by (simp add: step_def orderly_main_step)
next
  case (Sweeper now)
  from assms have "orderly (sweeper_step now p)"
    by (rule orderly_frame) (simp_all add: sweeper_step_frame)
  with Sweeper show ?thesis by (simp add: step_def)
next
  case (Listener i)
  from assms have "orderly (listener_step parse QTYPE pack i p)"
    by (rule orderly_frame) (simp_all add: listener_step_frame)
  with Listener show ?thesis by (simp add: step_def)
qed

lemma orderly_execute:
  "orderly p \<Longrightarrow> orderly (execute parse QTYPE pack schedule p)"
  by (induction schedule arbitrary: p) (simp_all add: orderly_step)

lemma orderly_start_dns: "running s \<Longrightarrow> orderly (start_dns s lines)"
  by (simp add: start_dns_def orderly_def done_at_def)

text \<open>The main thread moves as if it were alone.\<close>

lemma main_step_view:
  assumes "main p = main p'" and "stdin p = stdin p'" and "events p = events p'"
  shows "main (main_step p) = main (main_step p') \<and> stdin (main_step p) = stdin (main_step p')
         \<and> events (main_step p) = events (main_step p')"
  using assms
  by (cases "main p'"; cases "stdin p'") (simp_all add: main_step_def save_dns_cache_def)

lemma execute_main_only:
  assumes "main p = main p'" and "stdin p = stdin p'" and "events p = events p'"
  shows "main (execute parse QTYPE pack schedule p)
           = main (execute parse QTYPE pack (main_only schedule) p')
         \<and> stdin (execute parse QTYPE pack schedule p)
           = stdin (execute parse QTYPE pack (main_only schedule) p')
         \<and> events (execute parse QTYPE pack schedule p)
           = events (execute parse QTYPE pack (main_only schedule) p')"
  using assms
proof (induction schedule arbitrary: p p')
  case Nil
  then show ?case by (simp add: main_only_def)
next
  case (Cons act schedule)
  show ?case
  proof (cases act)
    case Main
    from main_step_view [OF Cons.prems]
    have "main (main_step p) = main (main_step p')" "stdin (main_step p) = stdin (main_step p')"
      "events (main_step p) = events (main_step p')" by simp_all
    from Cons.IH [OF this] Main show ?thesis by (simp add: main_only_def step_def)
  next
    case (Sweeper now)
    from Cons.prems sweeper_step_frame [of now p]
    have "main (sweeper_step now p) = main p'" "stdin (sweeper_step now p) = stdin p'"
      "events (sweeper_step now p) = events p'" by simp_all
    from Cons.IH [OF this] Sweeper show ?thesis by (simp add: main_only_def step_def)
  next
    case (Listener i)
    from Cons.prems listener_step_frame [of parse QTYPE pack i p]
    have "main (listener_step parse QTYPE pack i p) = main p'"
      "stdin (listener_step parse QTYPE pack i p) = stdin p'"
      "events (listener_step parse QTYPE pack i p) = events p'" by simp_all
    from Cons.IH [OF this] Listener show ?thesis by (simp add: main_only_def step_def)
  qed
qed


lemmas process_defs =
  step_def main_step_def sweeper_step_def listener_step_def start_dns_def
  save_dns_cache_def del_record_def delitem_def

text \<open>
  C5, as the code has it.
  \<^item> From the start of a server whose flag is up, whatever the schedule of the three
    threads: what the main thread has done of the shutdown is a beginning of
    the sequence: flag cleared, snapshot written, \<^verbatim>\<open>sys.exit\<close> called; the flag is down exactly
    from the first of these on, and there is a snapshot exactly from the second on.
  \<^item> Once \<^verbatim>\<open>exit\<close> is read, four steps of the main thread alone clear the flag, write
    the snapshot of the cache as it is, print and call \<^verbatim>\<open>sys.exit\<close>; the sweeper and
    the listener are where they were.  The main thread waits for neither.
  \<^item> In every schedule the main thread gets as far, and does the same, as in the
    schedule with the steps of the two loops left out.
\<close>

theorem shutdown_flag_then_snapshot_then_exit:
  "(running s \<longrightarrow>
      events (execute parse QTYPE pack schedule (start_dns s lines))
        \<in> {[], [FlagCleared], [FlagCleared, SnapshotSaved],
            [FlagCleared, SnapshotSaved, ExitCalled]}
      \<and> running (srv (execute parse QTYPE pack schedule (start_dns s lines)))
          = (events (execute parse QTYPE pack schedule (start_dns s lines)) = [])
      \<and> (snapshot (execute parse QTYPE pack schedule (start_dns s lines)) = None)
          = (SnapshotSaved \<notin> set (events (execute parse QTYPE pack schedule (start_dns s lines)))))
   \<and> (main p = AtSetRunning \<longrightarrow>
        execute parse QTYPE pack [Main, Main, Main, Main] p
          = p\<lparr>srv := (srv p)\<lparr>running := False, stdout := stdout (srv p) @ [ShutdownLine]\<rparr>,
              snapshot := Some (dns_cache (srv p)), main := Finished,
              events := events p @ [FlagCleared, SnapshotSaved, ExitCalled]\<rparr>)
   \<and> events (execute parse QTYPE pack schedule' p')
       = events (execute parse QTYPE pack (main_only schedule') p')
   \<and> main (execute parse QTYPE pack schedule' p')
       = main (execute parse QTYPE pack (main_only schedule') p')"
proof -
  let ?p = "execute parse QTYPE pack schedule (start_dns s lines)"
  have a: "running s \<longrightarrow>
      events ?p \<in> {[], [FlagCleared], [FlagCleared, SnapshotSaved],
                    [FlagCleared, SnapshotSaved, ExitCalled]}
      \<and> running (srv ?p) = (events ?p = [])
      \<and> (snapshot ?p = None) = (SnapshotSaved \<notin> set (events ?p))"
  proof
    assume "running s"
    then have "orderly ?p" by (simp add: orderly_execute orderly_start_dns)
    then show "events ?p \<in> {[], [FlagCleared], [FlagCleared, SnapshotSaved],
                    [FlagCleared, SnapshotSaved, ExitCalled]}
      \<and> running (srv ?p) = (events ?p = [])
      \<and> (snapshot ?p = None) = (SnapshotSaved \<notin> set (events ?p))"
      by (cases "main ?p") (simp_all add: orderly_def done_at_def)
  qed
  have b: "main p = AtSetRunning \<longrightarrow>
        execute parse QTYPE pack [Main, Main, Main, Main] p
          = p\<lparr>srv := (srv p)\<lparr>running := False, stdout := stdout (srv p) @ [ShutdownLine]\<rparr>,
              snapshot := Some (dns_cache (srv p)), main := Finished,
              events := events p @ [FlagCleared, SnapshotSaved, ExitCalled]\<rparr>"
    by (simp add: step_def main_step_def save_dns_cache_def)
  have c: "events (execute parse QTYPE pack schedule' p')
       = events (execute parse QTYPE pack (main_only schedule') p')
   \<and> main (execute parse QTYPE pack schedule' p')
       = main (execute parse QTYPE pack (main_only schedule') p')"
    using execute_main_only [of p' p' parse QTYPE pack schedule'] by simp
  from a b c show ?thesis by blast
qed

lemmas process_run_defs = process_defs run_defs

text \<open>
  C5.  The claim: after the flag is flipped the controller waits until the sweeper and the
  listener have left their loops, and only then is the snapshot written.
  \<^verbatim>\<open>start_dns\<close> never joins the threads.  In the first run a query has been
  answered and cached and the sweeper has begun a pass when \<^verbatim>\<open>exit\<close> is read: the
  flag is cleared and the snapshot written while the sweeper stands inside its scan and
  the listener in its loop.  In the second run the same goes on: \<^verbatim>\<open>sys.exit\<close> is
  called, then the sweeper finishes its pass, removing the entry that the snapshot
  holds, and only then do the sweeper and the listener see the flag and leave.
\<close>

theorem snapshot_saved_while_loops_run:
  "execute codec qtypes sample_pack
     [Listener query_arrival, Sweeper 1700000000000100, Sweeper 1700000000000200,
      Main, Main, Main]
     (start_dns empty_server [''exit''])
   = \<lparr>srv = \<lparr>dns_cache = [(''example.com.'', [(''A'', cached_answer)])], running = False,
              to_upstream = [([1], upstream)], to_client = [([2], client)],
              stdout = [StartLine, ExitHintLine]\<rparr>,
       snapshot = Some [(''example.com.'', [(''A'', cached_answer)])],
       stdin = [], main = AtPrint,
       sweeper = InnerNext 1 1 ''example.com.'' 0 1 [], listener = Looping,
       events = [FlagCleared, SnapshotSaved]\<rparr>
   \<and> execute codec qtypes sample_pack
     [Listener query_arrival, Sweeper 1700000000000100, Sweeper 1700000000000200,
      Main, Main, Main, Main, Main,
      Sweeper 1700000000400000, Sweeper 1700000000400000, Sweeper 1700000000400000,
      Sweeper 1700000000400000, Sweeper 1700000000400000, Sweeper 1700000000400000,
      Listener quiet]
     (start_dns empty_server [''exit''])
   = \<lparr>srv = \<lparr>dns_cache = [(''example.com.'', [])], running = False,
              to_upstream = [([1], upstream)], to_client = [([2], client)],
              stdout = [StartLine, ExitHintLine, ShutdownLine,
                        RemovingExpired ''example.com.'' ''A'']\<rparr>,
       snapshot = Some [(''example.com.'', [(''A'', cached_answer)])],
       stdin = [], main = Finished, sweeper = SweeperLeft, listener = Left,
       events = [FlagCleared, SnapshotSaved, ExitCalled]\<rparr>"
  by (simp add: process_run_defs)

text \<open>
  The sweeper can end with the flag up: the listener stores an answer under a new name
  while the sweeper is in its loop over the names.
\<close>

lemma sweeper_dies_when_the_dictionary_grows:
  "execute codec qtypes sample_pack
     [Sweeper 1700000000000100, Listener query_arrival, Sweeper 1700000000000200]
     (start_dns empty_server [])
   = \<lparr>srv = \<lparr>dns_cache = [(''example.com.'', [(''A'', cached_answer)])], running = True,
              to_upstream = [([1], upstream)], to_client = [([2], client)],
              stdout = [StartLine, ExitHintLine]\<rparr>,
       snapshot = None, stdin = [], main = AtInput,
       sweeper = SweeperDied RuntimeError, listener = Looping, events = []\<rparr>"
  by (simp add: process_run_defs)

text \<open>
  The steps of the sweeper, when nothing comes between them, are the pass
  \<^const>\<open>sweep_pass\<close>: here on a cache of two entries, with the two readings of the clock
  at the two steps that look at an entry (the other steps take no reading).
\<close>

lemma undisturbed_steps_are_a_pass:
  "srv (execute codec qtypes sample_pack
          [Sweeper 0, Sweeper 0,
           Sweeper (ticking 1700000000000000 40 0), Sweeper (ticking 1700000000000000 40 1),
           Sweeper 0, Sweeper 0, Sweeper 0, Sweeper 0, Sweeper 0]
          \<lparr>srv = empty_server\<lparr>dns_cache :=
                   [(''example.com.'', [(''A'', stale_entry), (''AAAA'', expiring_entry)])]\<rparr>,
           snapshot = None, stdin = [], main = AtInput, sweeper = AtWhile,
           listener = Looping, events = []\<rparr>)
   = outcome_state (sweep_pass (ticking 1700000000000000 40)
       (empty_server\<lparr>dns_cache :=
          [(''example.com.'', [(''A'', stale_entry), (''AAAA'', expiring_entry)])]\<rparr>))"
  by (simp add: process_run_defs sweep_pass_def ticking_def)

theorem shutdown_flag_then_snapshot_then_exit_witness:
  "running empty_server
   \<and> main (execute codec qtypes sample_pack [Main] (start_dns empty_server [''exit'']))
       = AtSetRunning
   \<and> events (execute codec qtypes sample_pack
               [Listener query_arrival, Sweeper 1700000000000100, Main, Main,
                Sweeper 1700000000000200, Main, Listener quiet, Main, Main]
               (start_dns empty_server [''exit'']))
       = [FlagCleared, SnapshotSaved, ExitCalled]
   \<and> events (execute codec qtypes sample_pack
               (main_only [Listener query_arrival, Sweeper 1700000000000100, Main, Main,
                           Sweeper 1700000000000200, Main, Listener quiet, Main, Main])
               (start_dns empty_server [''exit'']))
       = [FlagCleared, SnapshotSaved, ExitCalled]
   \<and> execute codec qtypes sample_pack [Main, Main, Main, Main]
         (execute codec qtypes sample_pack [Main] (start_dns empty_server [''exit'']))
       = \<lparr>srv = \<lparr>dns_cache = [], running = False, to_upstream = [], to_client = [],
                  stdout = [StartLine, ExitHintLine, ShutdownLine]\<rparr>,
           snapshot = Some [], stdin = [], main = Finished, sweeper = AtWhile,
           listener = Looping, events = [FlagCleared, SnapshotSaved, ExitCalled]\<rparr>"
  using shutdown_flag_then_snapshot_then_exit [where s = empty_server and parse = codec and QTYPE = qtypes and pack = sample_pack
      and schedule = "[Listener query_arrival, Sweeper 1700000000000100, Main, Main,
                       Sweeper 1700000000000200, Main, Listener quiet, Main, Main]"
      and lines = "[''exit'']"
      and p = "execute codec qtypes sample_pack [Main] (start_dns empty_server [''exit''])"
      and schedule' = "[Listener query_arrival, Sweeper 1700000000000100, Main, Main,
                        Sweeper 1700000000000200, Main, Listener quiet, Main, Main]"
      and p' = "start_dns empty_server [''exit'']"]
  by (simp add: process_run_defs main_only_def)

end
